theory Spec2Isabelle
  imports Complex_Main "HOL-Library.Sublist"
begin

section \<open>ASML reticle template: Code-39 barcode generator and layer resolver\<close>

text \<open>
  A shallow embedding of \<^verbatim>\<open>ASMLtemplate_barcode_v2.py\<close>.

  Python floats are modelled as real numbers. Every constant of the script
  (\<^verbatim>\<open>0.450 * 1e3\<close>, \<^verbatim>\<open>-0.200 * 1e3\<close>, \<^verbatim>\<open>5 * 1e3 / 2\<close>)
  and every partial sum of bar widths of a barcode is an integer multiple of 50 far below
  \<open>2 ^ 53\<close>, where double arithmetic is exact; for other coordinates the model is the
  exact-arithmetic reading of the program.

  Python strings are modelled as \<^typ>\<open>string\<close>; the built-ins \<^verbatim>\<open>str.upper\<close> and
  \<^verbatim>\<open>str.lower\<close> are modelled on ASCII text, where they map letter to letter.
\<close>

subsection \<open>Exceptions\<close>

text \<open>
  The two exception classes of the script carry the offending value as a field; the
  built-in exceptions the modelled code can raise are listed beside them.
\<close>

datatype py_error =
    InvalidBarcodeLength string
  | InvalidBarcodeCharacter char
  | KeyError char
  | StopIteration
  | TypeError
  | ValueError
  | FileNotFoundError
  | EOFError
  | OtherError string

definition quoted :: "string \<Rightarrow> string" where
  "quoted s = [CHR 0x27] @ s @ [CHR 0x27]"

text \<open>
  \<^verbatim>\<open>str(e)\<close> for the two exception classes, raised with their default messages:
  \<^verbatim>\<open>InvalidBarcodeLength\<close> passes the message alone to the base class,
  \<^verbatim>\<open>InvalidBarcodeCharacter\<close> passes the message followed by the quoted character.
\<close>

definition str_InvalidBarcodeLength :: "string \<Rightarrow> string" where
  "str_InvalidBarcodeLength barcode = ''Barcode must be between 1 and 12 characters long''"

definition str_InvalidBarcodeCharacter :: "char \<Rightarrow> string" where
  "str_InvalidBarcodeCharacter character =
     ''Invalid Character in the Barcode String'' @ '': '' @ quoted [character]"

subsection \<open>Barcode constants and dictionary\<close>

definition scale :: real where
  "scale = 1000"

definition barheight :: real where
  "barheight = 5 * scale"

definition wb :: real where
  "wb = 0.450 * scale"

definition ns :: real where
  "ns = - 0.200 * scale"

definition nb :: real where
  "nb = 0.200 * scale"

definition ws :: real where
  "ws = - 0.450 * scale"

definition startstop :: "real list" where
  "startstop = [nb, ws, nb, ns, wb, ns, wb, ns, nb, ns]"

text \<open>The dictionary literal, entry by entry in the order of the source.\<close>

definition codedict_items :: "(char \<times> real list) list" where
  "codedict_items = [
    (CHR ''A'', [wb, ns, nb, ns, nb, ws, nb, ns, wb, ns]), (CHR ''B'', [nb, ns, wb, ns, nb, ws, nb, ns, wb, ns]),
    (CHR ''C'', [wb, ns, wb, ns, nb, ws, nb, ns, nb, ns]), (CHR ''D'', [nb, ns, nb, ns, wb, ws, nb, ns, wb, ns]),
    (CHR ''E'', [wb, ns, nb, ns, wb, ws, nb, ns, nb, ns]), (CHR ''F'', [nb, ns, wb, ns, wb, ws, nb, ns, nb, ns]),
    (CHR ''G'', [nb, ns, nb, ns, nb, ws, wb, ns, wb, ns]), (CHR ''H'', [wb, ns, nb, ns, nb, ws, wb, ns, nb, ns]),
    (CHR ''I'', [nb, ns, wb, ns, nb, ws, wb, ns, nb, ns]), (CHR ''J'', [nb, ns, nb, ns, wb, ws, wb, ns, nb, ns]),
    (CHR ''K'', [wb, ns, nb, ns, nb, ns, nb, ws, wb, ns]), (CHR ''L'', [nb, ns, wb, ns, nb, ns, nb, ws, wb, ns]),
    (CHR ''M'', [wb, ns, wb, ns, nb, ns, nb, ws, nb, ns]), (CHR ''N'', [nb, ns, nb, ns, wb, ns, nb, ws, wb, ns]),
    (CHR ''O'', [wb, ns, nb, ns, wb, ns, nb, ws, nb, ns]), (CHR ''P'', [nb, ns, wb, ns, wb, ns, nb, ws, nb, ns]),
    (CHR ''Q'', [nb, ns, nb, ns, nb, ns, wb, ws, wb, ns]), (CHR ''R'', [wb, ns, nb, ns, nb, ns, wb, ws, nb, ns]),
    (CHR ''S'', [nb, ns, wb, ns, nb, ns, wb, ws, nb, ns]), (CHR ''T'', [nb, ns, nb, ns, wb, ns, wb, ws, nb, ns]),
    (CHR ''U'', [wb, ws, nb, ns, nb, ns, nb, ns, wb, ns]), (CHR ''V'', [nb, ws, wb, ns, nb, ns, nb, ns, wb, ns]),
    (CHR ''W'', [wb, ws, wb, ns, nb, ns, nb, ns, nb, ns]), (CHR ''X'', [nb, ws, nb, ns, wb, ns, nb, ns, wb, ns]),
    (CHR ''Y'', [wb, ws, nb, ns, wb, ns, nb, ns, nb, ns]), (CHR ''Z'', [nb, ws, wb, ns, wb, ns, nb, ns, nb, ns]),
    (CHR ''1'', [wb, ns, nb, ws, nb, ns, nb, ns, wb, ns]), (CHR ''2'', [nb, ns, wb, ws, nb, ns, nb, ns, wb, ns]),
    (CHR ''3'', [wb, ns, wb, ws, nb, ns, nb, ns, nb, ns]), (CHR ''4'', [nb, ns, nb, ws, wb, ns, nb, ns, wb, ns]),
    (CHR ''5'', [wb, ns, nb, ws, wb, ns, nb, ns, nb, ns]), (CHR ''6'', [nb, ns, wb, ws, wb, ns, nb, ns, nb, ns]),
    (CHR ''7'', [nb, ns, nb, ws, nb, ns, wb, ns, wb, ns]), (CHR ''8'', [wb, ns, nb, ws, nb, ns, wb, ns, nb, ns]),
    (CHR ''9'', [nb, ns, wb, ws, nb, ns, wb, ns, nb, ns]), (CHR ''0'', [nb, ns, nb, ws, wb, ns, wb, ns, nb, ns]),
    (CHR ''-'', [nb, ws, nb, ns, nb, ns, wb, ns, wb, ns]), (CHR ''.'', [wb, ws, nb, ns, nb, ns, wb, ns, nb, ns]),
    (CHR ''$'', [nb, ws, nb, ws, nb, ws, nb, ns, nb, ns]), (CHR ''/'', [nb, ws, nb, ws, nb, ns, nb, ws, nb, ns]),
    (CHR ''+'', [nb, ws, nb, ns, nb, ws, nb, ws, nb, ns]), (CHR ''%'', [nb, ns, nb, ws, nb, ws, nb, ws, nb, ns]),
    (CHR '' '', [nb, ws, wb, ns, nb, ns, wb, ns, nb, ns])]"

definition codedict :: "char \<rightharpoonup> real list" where
  "codedict = map_of codedict_items"

subsection \<open>The encoder\<close>

text \<open>
  \<^verbatim>\<open>str2code\<close> extends a list by the start/stop pattern, by the pattern of each character
  in turn, and by the start/stop pattern again. The subscript \<^verbatim>\<open>codedict[char]\<close> raises
  \<^verbatim>\<open>KeyError\<close> at the first character that is not a key, which ends the call.
\<close>

fun str2code_loop :: "string \<Rightarrow> real list \<Rightarrow> py_error + real list" where
  "str2code_loop [] barcode = Inr barcode"
| "str2code_loop (char # rest) barcode =
     (case codedict char of
        None \<Rightarrow> Inl (KeyError char)
      | Some pattern \<Rightarrow> str2code_loop rest (barcode @ pattern))"

definition str2code :: "string \<Rightarrow> py_error + real list" where
  "str2code str2wrt =
     (case str2code_loop str2wrt ([] @ startstop) of
        Inl e \<Rightarrow> Inl e
      | Inr barcode \<Rightarrow> Inr (barcode @ startstop))"

subsection \<open>The barcode geometry renderer\<close>

text \<open>
  \<^verbatim>\<open>gdstk.rectangle(corner1, corner2, layer, datatype)\<close> is kept as the record of its
  arguments. A cell is its name and the elements added to it, in the order of the
  \<^verbatim>\<open>add\<close> calls; the library that owns the cell plays no part in the geometry.
\<close>

record rectangle =
  corner1 :: "real \<times> real"
  corner2 :: "real \<times> real"
  rect_layer :: int
  rect_datatype :: int

record 'a cell =
  cell_name :: string
  elements :: "'a list"

definition gdstk_rectangle :: "real \<times> real \<Rightarrow> real \<times> real \<Rightarrow> int \<Rightarrow> int \<Rightarrow> rectangle" where
  "gdstk_rectangle c1 c2 l d =
     \<lparr>corner1 = c1, corner2 = c2, rect_layer = l, rect_datatype = d\<rparr>"

text \<open>
  The loop of \<^verbatim>\<open>barcad\<close>, with its state written out: the cursor \<^verbatim>\<open>xcurr\<close> and the
  rectangles added so far.
\<close>

fun barcad_loop :: "real list \<Rightarrow> int \<Rightarrow> int \<Rightarrow> real \<Rightarrow> rectangle list \<Rightarrow> real \<times> rectangle list" where
  "barcad_loop [] layer_num datatype_num xcurr added = (xcurr, added)"
| "barcad_loop (x # rest) layer_num datatype_num xcurr added =
     barcad_loop rest layer_num datatype_num (xcurr + \<bar>x\<bar>)
       (if x > 0
        then added @ [gdstk_rectangle (xcurr, - barheight / 2) (xcurr + x, barheight / 2)
                        layer_num datatype_num]
        else added)"

definition barcad :: "real list \<Rightarrow> int \<Rightarrow> int \<Rightarrow> rectangle cell" where
  "barcad barcode layer_num datatype_num =
     \<lparr>cell_name = ''BARCODE'',
      elements = snd (barcad_loop barcode layer_num datatype_num 0 [])\<rparr>"

text \<open>The value of \<^verbatim>\<open>xcurr\<close> when the loop of \<^verbatim>\<open>barcad\<close> ends.\<close>

definition barcad_xcurr :: "real list \<Rightarrow> int \<Rightarrow> int \<Rightarrow> real" where
  "barcad_xcurr barcode layer_num datatype_num =
     fst (barcad_loop barcode layer_num datatype_num 0 [])"

subsection \<open>The label and date renderer\<close>

text \<open>
  A polygon of the layout library is its vertex list and its layer pair. Its
  \<^verbatim>\<open>bounding_box()\<close> is the pair of the lower left and upper right corner, and
  \<^verbatim>\<open>None\<close> for a polygon without vertices; \<^verbatim>\<open>translate\<close> moves every vertex.
\<close>

record polygon =
  points :: "(real \<times> real) list"
  poly_layer :: int
  poly_datatype :: int

type_synonym bbox = "(real \<times> real) \<times> (real \<times> real)"

definition bounding_box :: "polygon \<Rightarrow> bbox option" where
  "bounding_box poly =
     (if points poly = [] then None
      else Some ((Min (set (map fst (points poly))), Min (set (map snd (points poly)))),
                 (Max (set (map fst (points poly))), Max (set (map snd (points poly))))))"

definition translate :: "real \<Rightarrow> real \<Rightarrow> polygon \<Rightarrow> polygon" where
  "translate dx dy poly = poly\<lparr>points := map (\<lambda>(px, py). (px + dx, py + dy)) (points poly)\<rparr>"

text \<open>
  \<^verbatim>\<open>humancad\<close> and \<^verbatim>\<open>datecad\<close> share, line for line, the block that follows the call
  of \<^verbatim>\<open>gdstk.text\<close>: the bounding box of the first polygon, folded with those of the
  others, then the translation of every polygon. Unpacking a \<^verbatim>\<open>None\<close> bounding box
  raises \<^verbatim>\<open>TypeError\<close>.
\<close>

fun bbox_loop :: "polygon list \<Rightarrow> bbox \<Rightarrow> py_error + bbox" where
  "bbox_loop [] bb = Inr bb"
| "bbox_loop (poly # rest) ((min_x, min_y), (max_x, max_y)) =
     (case bounding_box poly of
        None \<Rightarrow> Inl TypeError
      | Some ((bb_min_x, bb_min_y), (bb_max_x, bb_max_y)) \<Rightarrow>
          bbox_loop rest ((min min_x bb_min_x, min min_y bb_min_y),
                          (max max_x bb_max_x, max max_y bb_max_y)))"

definition center_text :: "polygon list \<Rightarrow> py_error + polygon list" where
  "center_text text =
     (if text \<noteq> [] then
        (case bounding_box (hd text) of
           None \<Rightarrow> Inl TypeError
         | Some bb0 \<Rightarrow>
             (case bbox_loop (tl text) bb0 of
                Inl e \<Rightarrow> Inl e
              | Inr ((min_x, min_y), (max_x, max_y)) \<Rightarrow>
                  (let center_x = (min_x + max_x) / 2;
                       center_y = (min_y + max_y) / 2
                   in Inr (map (translate (- center_x) (- center_y)) text))))
      else Inr text)"

text \<open>
  The text primitive \<^verbatim>\<open>gdstk.text(string, size, position, layer, datatype)\<close> belongs to the
  layout library and is a parameter; so is the formatted date of the day.
\<close>

type_synonym text_primitive = "string \<Rightarrow> real \<Rightarrow> real \<times> real \<Rightarrow> int \<Rightarrow> int \<Rightarrow> polygon list"

definition humancad :: "text_primitive \<Rightarrow> string \<Rightarrow> int \<Rightarrow> int \<Rightarrow> py_error + polygon cell" where
  "humancad gdstk_text str2wrt layer_num datatype_num =
     (case center_text (gdstk_text str2wrt (4 * scale) (0, 0) layer_num datatype_num) of
        Inl e \<Rightarrow> Inl e
      | Inr text \<Rightarrow> Inr \<lparr>cell_name = ''RETICLELABEL'', elements = text\<rparr>)"

definition datecad :: "text_primitive \<Rightarrow> string \<Rightarrow> int \<Rightarrow> int \<Rightarrow> py_error + polygon cell" where
  "datecad gdstk_text today layer_num datatype_num =
     (case center_text (gdstk_text today (4 * scale) (0, 0) layer_num datatype_num) of
        Inl e \<Rightarrow> Inl e
      | Inr today_text \<Rightarrow> Inr \<lparr>cell_name = ''DATE'', elements = today_text\<rparr>)"

subsection \<open>The layer conflict resolver\<close>

text \<open>
  The two arguments are the sets that \<^verbatim>\<open>layers_and_datatypes()\<close> returns for the user
  design and for the template. The result records the dictionary passed to
  \<^verbatim>\<open>template_lib.remap\<close> (\<open>None\<close> on the branch that does not call it) and the
  value of \<^verbatim>\<open>barcode_target_layer\<close>.
\<close>

type_synonym layer_datatype = "int \<times> int"

definition barcode_layer_datatype :: layer_datatype where
  "barcode_layer_datatype = (4, 0)"

record resolution =
  remap_dict :: "(layer_datatype \<rightharpoonup> layer_datatype) option"
  barcode_target_layer :: int

definition resolve_layers :: "layer_datatype set \<Rightarrow> layer_datatype set \<Rightarrow> resolution" where
  "resolve_layers user_layers_datatypes template_layers_datatypes =
     (let all_template_layers_datatypes = template_layers_datatypes \<union> {barcode_layer_datatype};
          conflicts = user_layers_datatypes \<inter> all_template_layers_datatypes
      in if conflicts \<noteq> {} then
           (let user_layers = fst ` user_layers_datatypes;
                max_user_layer = (if user_layers \<noteq> {} then Max user_layers else 0);
                new_layer = max_user_layer + 1
            in \<lparr>remap_dict = Some (\<lambda>old_ld. if old_ld \<in> all_template_layers_datatypes
                                            then Some (new_layer, snd old_ld) else None),
                barcode_target_layer = new_layer\<rparr>)
         else \<lparr>remap_dict = None, barcode_target_layer = fst barcode_layer_datatype\<rparr>)"

text \<open>
  \<^verbatim>\<open>Library.remap\<close> of the layout library moves every element whose pair is a key of
  the dictionary to the pair stored there; on the set of pairs in use it is the image.
\<close>

definition remap_pairs :: "(layer_datatype \<rightharpoonup> layer_datatype) \<Rightarrow> layer_datatype set \<Rightarrow> layer_datatype set" where
  "remap_pairs m pairs = (\<lambda>ld. case m ld of Some new_ld \<Rightarrow> new_ld | None \<Rightarrow> ld) ` pairs"

definition template_pairs_after :: "layer_datatype set \<Rightarrow> layer_datatype set \<Rightarrow> layer_datatype set" where
  "template_pairs_after user_layers_datatypes template_layers_datatypes =
     (case remap_dict (resolve_layers user_layers_datatypes template_layers_datatypes) of
        None \<Rightarrow> template_layers_datatypes
      | Some m \<Rightarrow> remap_pairs m template_layers_datatypes)"

subsection \<open>Interactive prompts\<close>

text \<open>
  Every prompt of the script is a \<^verbatim>\<open>while True\<close> loop around one attempt. An attempt
  either leaves the loop with a value, or prints and asks again, or lets an exception
  through; the lines it prints are kept. The loop runs over the entries the operator
  types; \<^verbatim>\<open>input\<close> raises \<^verbatim>\<open>EOFError\<close> when there are none left.
\<close>

datatype 'a attempt =
    Break "string list" 'a
  | Continue "string list"
  | Raise py_error

fun prompt_loop :: "('i \<Rightarrow> 'a attempt) \<Rightarrow> 'i list \<Rightarrow> string list \<Rightarrow> string list \<times> (py_error + 'a \<times> 'i list)" where
  "prompt_loop step [] printed = (printed, Inl EOFError)"
| "prompt_loop step (entry # entries) printed =
     (case step entry of
        Break lines v \<Rightarrow> (printed @ lines, Inr (v, entries))
      | Continue lines \<Rightarrow> prompt_loop step entries (printed @ lines)
      | Raise e \<Rightarrow> (printed, Inl e))"

text \<open>ASCII case mapping, for \<^verbatim>\<open>str.upper\<close> and \<^verbatim>\<open>str.lower\<close>.\<close>

definition upper_char :: "char \<Rightarrow> char" where
  "upper_char c =
     (case map_of (zip ''abcdefghijklmnopqrstuvwxyz'' ''ABCDEFGHIJKLMNOPQRSTUVWXYZ'') c of
        Some u \<Rightarrow> u
      | None \<Rightarrow> c)"

definition lower_char :: "char \<Rightarrow> char" where
  "lower_char c =
     (case map_of (zip ''ABCDEFGHIJKLMNOPQRSTUVWXYZ'' ''abcdefghijklmnopqrstuvwxyz'') c of
        Some l \<Rightarrow> l
      | None \<Rightarrow> c)"

definition upper :: "string \<Rightarrow> string" where
  "upper s = map upper_char s"

definition lower :: "string \<Rightarrow> string" where
  "lower s = map lower_char s"

text \<open>
  Loading a layout: \<^verbatim>\<open>gdstk.read_gds\<close> is a parameter; only its
  \<^verbatim>\<open>FileNotFoundError\<close> is caught.
\<close>

definition load_template_step :: "(string \<Rightarrow> py_error + 'lib) \<Rightarrow> string \<Rightarrow> 'lib attempt" where
  "load_template_step read_gds template_gds_file =
     (case read_gds template_gds_file of
        Inr template_lib \<Rightarrow>
          Break [''Successfully loaded template '' @ quoted template_gds_file @ ''.''] template_lib
      | Inl FileNotFoundError \<Rightarrow>
          Continue [''Error: The file '' @ quoted template_gds_file
                      @ '' was not found. Please try again.'']
      | Inl e \<Rightarrow> Raise e)"

definition load_user_step :: "(string \<Rightarrow> py_error + 'lib) \<Rightarrow> string \<Rightarrow> 'lib attempt" where
  "load_user_step read_gds user_gds_file =
     (case read_gds user_gds_file of
        Inr user_lib \<Rightarrow>
          Break [''Successfully loaded your design '' @ quoted user_gds_file @ ''.''] user_lib
      | Inl FileNotFoundError \<Rightarrow>
          Continue [''Error: The file '' @ quoted user_gds_file
                      @ '' was not found. Please try again.'']
      | Inl e \<Rightarrow> Raise e)"




text \<open>
  The barcode prompt. \<^verbatim>\<open>check_barcode\<close> is the body of the \<^verbatim>\<open>try\<close> block on the
  upper-cased label, up to the two \<^verbatim>\<open>raise\<close> statements; \<^verbatim>\<open>next\<close> on an exhausted
  generator raises \<^verbatim>\<open>StopIteration\<close>.
\<close>

definition check_barcode :: "string \<Rightarrow> py_error + unit" where
  "check_barcode barcode_label =
     (if \<not> (1 \<le> length barcode_label \<and> length barcode_label \<le> 12)
      then Inl (InvalidBarcodeLength barcode_label)
      else if \<not> list_all (\<lambda>char. codedict char \<noteq> None) barcode_label
      then (case find (\<lambda>char. codedict char = None) barcode_label of
              None \<Rightarrow> Inl StopIteration
            | Some invalid_char \<Rightarrow> Inl (InvalidBarcodeCharacter invalid_char))
      else Inr ())"

definition barcode_error_line :: "string \<Rightarrow> string" where
  "barcode_error_line str_e =
     ''Error: '' @ str_e @ ''. Please use only A-Z, 0-9, and the characters: - . $ / + %''"

definition barcode_step :: "string \<Rightarrow> string attempt" where
  "barcode_step entry =
     (let barcode_label = upper entry
      in case check_barcode barcode_label of
           Inr _ \<Rightarrow> Break [''Barcode '' @ quoted barcode_label @ '' is valid.''] barcode_label
         | Inl (InvalidBarcodeLength barcode) \<Rightarrow>
             Continue [barcode_error_line (str_InvalidBarcodeLength barcode)]
         | Inl (InvalidBarcodeCharacter character) \<Rightarrow>
             Continue [barcode_error_line (str_InvalidBarcodeCharacter character)]
         | Inl e \<Rightarrow> Raise e)"

text \<open>The name of the output file.\<close>

definition output_name :: "string \<Rightarrow> string" where
  "output_name output_gds_file =
     (if \<not> suffix ''.gds'' (lower output_gds_file)
      then output_gds_file @ ''.gds''
      else output_gds_file)"

text \<open>
  The barcode cell is built from the accepted label:
  \<^verbatim>\<open>barcad(str2code(barcode_label), template_lib, barcode_target_layer)\<close>, with the
  default datatype 0.
\<close>

definition barcode_cell :: "string \<Rightarrow> int \<Rightarrow> py_error + rectangle cell" where
  "barcode_cell barcode_label target_layer =
     (case str2code barcode_label of
        Inl e \<Rightarrow> Inl e
      | Inr barcode \<Rightarrow> Inr (barcad barcode target_layer 0))"




subsection \<open>Vocabulary of the properties\<close>

text \<open>
  A well-formed bar token has the narrow or the wide magnitude and is not zero; a symbol
  pattern has ten of them. \<open>alphabet\<close> lists the keys of the dictionary in source order.
\<close>

definition token_ok :: "real \<Rightarrow> bool" where
  "token_ok t \<longleftrightarrow> (\<bar>t\<bar> = nb \<or> \<bar>t\<bar> = wb) \<and> t \<noteq> 0"

definition pattern_ok :: "real list \<Rightarrow> bool" where
  "pattern_ok p \<longleftrightarrow> length p = 10 \<and> list_all token_ok p"

definition alphabet :: string where
  "alphabet = ''ABCDEFGHIJKLMNOPQRSTUVWXYZ1234567890-.$/+% ''"

text \<open>
  The rectangle \<^verbatim>\<open>barcad\<close> draws for a bar of width \<open>w\<close> at cursor \<open>x\<close>, and the
  rectangles it draws for a token list when the cursor starts at \<open>x\<close>.
\<close>

definition bar_at :: "real \<Rightarrow> real \<Rightarrow> int \<Rightarrow> int \<Rightarrow> rectangle" where
  "bar_at x w l d =
     \<lparr>corner1 = (x, - barheight / 2), corner2 = (x + w, barheight / 2),
      rect_layer = l, rect_datatype = d\<rparr>"

fun bars_from :: "real \<Rightarrow> real list \<Rightarrow> int \<Rightarrow> int \<Rightarrow> rectangle list" where
  "bars_from x [] l d = []"
| "bars_from x (t # ts) l d =
     (if t > 0 then [bar_at x \<bar>t\<bar> l d] else []) @ bars_from (x + \<bar>t\<bar>) ts l d"

definition width :: "real list \<Rightarrow> real" where
  "width ts = sum_list (map abs ts)"

definition inks :: "real list \<Rightarrow> nat" where
  "inks ts = length (filter (\<lambda>t. 0 < t) ts)"

text \<open>
  The union bounding box of a list of polygons, over all their vertices, and the centre of
  a box.
\<close>

definition all_points :: "polygon list \<Rightarrow> (real \<times> real) list" where
  "all_points polys = concat (map points polys)"

definition union_bbox :: "polygon list \<Rightarrow> bbox" where
  "union_bbox polys =
     ((Min (set (map fst (all_points polys))), Min (set (map snd (all_points polys)))),
      (Max (set (map fst (all_points polys))), Max (set (map snd (all_points polys)))))"

definition bbox_center :: "bbox \<Rightarrow> real \<times> real" where
  "bbox_center bb = ((fst (fst bb) + fst (snd bb)) / 2, (snd (fst bb) + snd (snd bb)) / 2)"

text \<open>A sample text primitive.\<close>

definition two_glyphs :: text_primitive where
  "two_glyphs s sz pos l d =
     (if s = [] then []
      else [\<lparr>points = [(0, 0), (2, 0), (2, 4), (0, 4)], poly_layer = l, poly_datatype = d\<rparr>,
            \<lparr>points = [(3, 1), (6, 1), (6, 6)], poly_layer = l, poly_datatype = d\<rparr>])"

section \<open>Properties\<close>

subsection \<open>The symbology table\<close>

lemmas token_defs = scale_def wb_def ns_def nb_def ws_def

lemma token_ok_simps: "token_ok nb" "token_ok wb" "token_ok ns" "token_ok ws"
  by (simp_all add: token_ok_def token_defs)

lemma codedict_items_ok: "list_all (\<lambda>(c, p). pattern_ok p) codedict_items"
  by (simp add: codedict_items_def pattern_ok_def token_ok_simps)

lemma startstop_ok: "pattern_ok startstop"
  by (simp add: startstop_def pattern_ok_def token_ok_simps)

lemma codedict_keys: "map fst codedict_items = alphabet"
  by (simp add: codedict_items_def alphabet_def)

lemma distinct_alphabet: "distinct alphabet"
  by (simp add: alphabet_def)

lemma dom_codedict: "dom codedict = set alphabet"
  unfolding codedict_def dom_map_of_conv_image_fst set_map[symmetric] codedict_keys ..

lemma card_dom_codedict: "card (dom codedict) = 43"
  unfolding dom_codedict distinct_card[OF distinct_alphabet] by (simp add: alphabet_def)

lemma codedict_pattern_ok: "codedict c = Some p \<Longrightarrow> pattern_ok p"
  using codedict_items_ok unfolding codedict_def list_all_iff
  by (auto dest: map_of_SomeD)

lemma codedict_length: "codedict c = Some p \<Longrightarrow> length p = 10"
  by (drule codedict_pattern_ok) (simp add: pattern_ok_def)

text \<open>
  Claim C7, as amended. Every pattern of the dictionary and the start/stop pattern has
  exactly ten tokens; the magnitude of every token is the narrow width \<open>0.200 * scale\<close>
  or the wide width \<open>0.450 * scale\<close>, the wide one being 2.25 times the narrow one; no
  token is zero. The keys of the dictionary are the letters A to Z, the digits 0 to 9, the
  six characters \<^verbatim>\<open>- . $ / + %\<close> and the space: 43 keys.
\<close>

theorem symbology_table_shape:
  "(\<forall>c p. codedict c = Some p \<longrightarrow>
      length p = 10 \<and> (\<forall>t\<in>set p. (\<bar>t\<bar> = nb \<or> \<bar>t\<bar> = wb) \<and> t \<noteq> 0))
   \<and> length startstop = 10 \<and> (\<forall>t\<in>set startstop. (\<bar>t\<bar> = nb \<or> \<bar>t\<bar> = wb) \<and> t \<noteq> 0)
   \<and> nb = 0.200 * scale \<and> wb = 0.450 * scale \<and> wb = nb * 2.25
   \<and> dom codedict = set ''ABCDEFGHIJKLMNOPQRSTUVWXYZ0123456789'' \<union> set ''-.$/+%'' \<union> {CHR '' ''}
   \<and> card (dom codedict) = 43"
proof -
  have tab: "\<forall>c p. codedict c = Some p \<longrightarrow>
      length p = 10 \<and> (\<forall>t\<in>set p. (\<bar>t\<bar> = nb \<or> \<bar>t\<bar> = wb) \<and> t \<noteq> 0)"
    using codedict_pattern_ok by (auto simp: pattern_ok_def token_ok_def list_all_iff)
  have ss: "length startstop = 10 \<and> (\<forall>t\<in>set startstop. (\<bar>t\<bar> = nb \<or> \<bar>t\<bar> = wb) \<and> t \<noteq> 0)"
    using startstop_ok by (auto simp: pattern_ok_def token_ok_def list_all_iff)
  have widths: "nb = 0.200 * scale \<and> wb = 0.450 * scale \<and> wb = nb * 2.25"
    by (simp add: token_defs)
  have dom: "dom codedict = set ''ABCDEFGHIJKLMNOPQRSTUVWXYZ0123456789'' \<union> set ''-.$/+%'' \<union> {CHR '' ''}"
    unfolding dom_codedict alphabet_def by auto
  from tab ss widths dom card_dom_codedict show ?thesis by blast
qed

text \<open>
  The entry of \<^verbatim>\<open>A\<close>, read through the theorem.
\<close>

theorem symbology_table_shape_witness:
  "codedict CHR ''A'' = Some [wb, ns, nb, ns, nb, ws, nb, ns, wb, ns]
   \<and> length [wb, ns, nb, ns, nb, ws, nb, ns, wb, ns] = 10
   \<and> (\<bar>ws\<bar> = nb \<or> \<bar>ws\<bar> = wb) \<and> ws \<noteq> 0"
proof -
  have h: "codedict CHR ''A'' = Some [wb, ns, nb, ns, nb, ws, nb, ns, wb, ns]"
    by (simp add: codedict_def codedict_items_def)
  from symbology_table_shape h
  have "length [wb, ns, nb, ns, nb, ws, nb, ns, wb, ns] = 10
     \<and> (\<forall>t\<in>set [wb, ns, nb, ns, nb, ws, nb, ns, wb, ns]. (\<bar>t\<bar> = nb \<or> \<bar>t\<bar> = wb) \<and> t \<noteq> 0)"
    by blast
  with h show ?thesis by simp
qed

text \<open>
  Claim C7 as stated gives the dictionary 44 entries. The literal has 43, and so has its
  key set.
\<close>

theorem symbology_table_size_counterexample:
  "length codedict_items = 43 \<and> card (dom codedict) = 43 \<and> card (dom codedict) \<noteq> 44"
  using card_dom_codedict by (simp add: codedict_items_def)

subsection \<open>The encoder on valid labels\<close>

lemma str2code_loop_valid:
  "set s \<subseteq> dom codedict \<Longrightarrow>
     str2code_loop s barcode = Inr (barcode @ concat (map (\<lambda>c. the (codedict c)) s))"
  by (induction s arbitrary: barcode) auto

lemma str2code_loop_invalid:
  "\<not> set s \<subseteq> dom codedict \<Longrightarrow>
     \<exists>c. find (\<lambda>c. codedict c = None) s = Some c \<and> str2code_loop s barcode = Inl (KeyError c)"
proof (induction s arbitrary: barcode)
  case Nil
  then show ?case by simp
next
  case (Cons a s)
  show ?case
  proof (cases "codedict a")
    case None
    then show ?thesis by simp
  next
    case (Some p)
    with Cons.prems have "\<not> set s \<subseteq> dom codedict" by auto
    from Cons.IH[OF this, of "barcode @ p"] Some show ?thesis by simp
  qed
qed

lemma length_patterns:
  "set s \<subseteq> dom codedict \<Longrightarrow> length (concat (map (\<lambda>c. the (codedict c)) s)) = 10 * length s"
  by (induction s) (auto dest: codedict_length)

lemma str2code_valid:
  "set s \<subseteq> dom codedict \<Longrightarrow>
     str2code s = Inr (startstop @ concat (map (\<lambda>c. the (codedict c)) s) @ startstop)"
  by (simp add: str2code_def str2code_loop_valid)

lemma length_startstop: "length startstop = 10"
  by (simp add: startstop_def)

text \<open>
  Claim C1. For a string of 1 to 12 characters, each a key of the dictionary,
  \<^verbatim>\<open>str2code\<close> returns the start/stop pattern, the ten-token pattern of each character
  in input order, and the start/stop pattern again, as one flat list. Its length is
  \<open>10 * (length s + 2)\<close>, and its first ten tokens are its last ten tokens.
\<close>

theorem str2code_output:
  assumes "1 \<le> length s" and "length s \<le> 12" and "\<forall>c\<in>set s. c \<in> dom codedict"
  shows "\<exists>code. str2code s = Inr code
           \<and> code = startstop @ concat (map (\<lambda>c. the (codedict c)) s) @ startstop
           \<and> (\<forall>c\<in>set s. length (the (codedict c)) = 10)
           \<and> length code = 10 * (length s + 2)
           \<and> take 10 code = drop (length code - 10) code
           \<and> take 10 code = startstop"
proof -
  let ?mid = "concat (map (\<lambda>c. the (codedict c)) s)"
  let ?code = "startstop @ ?mid @ startstop"
  from assms(3) have sub: "set s \<subseteq> dom codedict" by blast
  have enc: "str2code s = Inr ?code" by (rule str2code_valid[OF sub])
  have each: "\<forall>c\<in>set s. length (the (codedict c)) = 10"
  proof
    fix c assume "c \<in> set s"
    with sub obtain p where "codedict c = Some p" by blast
    then show "length (the (codedict c)) = 10" by (simp add: codedict_length)
  qed
  have len: "length ?code = 10 * (length s + 2)"
    by (simp add: length_patterns[OF sub] length_startstop)
  have hd10: "take 10 ?code = startstop"
    by (simp add: length_startstop)
  have "length ?code - 10 = length (startstop @ ?mid)"
    by (simp add: length_startstop)
  then have tl10: "drop (length ?code - 10) ?code = startstop"
    by (metis append.assoc append_eq_conv_conj)
  from enc each len hd10 tl10 show ?thesis by simp
qed

text \<open>
  The label \<^verbatim>\<open>AB12\<close> meets the hypotheses; its code has 60 tokens.
\<close>

theorem str2code_output_witness:
  "1 \<le> length ''AB12'' \<and> length ''AB12'' \<le> 12 \<and> set ''AB12'' \<subseteq> dom codedict
   \<and> (\<exists>code. str2code ''AB12'' = Inr code \<and> length code = 60
         \<and> take 10 code = startstop \<and> drop 50 code = startstop)"
proof -
  have h1: "1 \<le> length ''AB12''" and h2: "length ''AB12'' \<le> 12" by simp_all
  have h3: "\<forall>c\<in>set ''AB12''. c \<in> dom codedict"
    by (simp add: dom_codedict alphabet_def)
  from str2code_output[OF h1 h2 h3] h1 h2 h3 show ?thesis by auto
qed

subsection \<open>Validation of the barcode label\<close>

lemma find_first_split:
  "find P xs = Some x \<Longrightarrow> \<exists>pre post. xs = pre @ x # post \<and> (\<forall>y\<in>set pre. \<not> P y) \<and> P x"
proof (induction xs)
  case Nil
  then show ?case by simp
next
  case (Cons a xs)
  show ?case
  proof (cases "P a")
    case True
    with Cons.prems have "x = a" by simp
    with True have "a # xs = [] @ x # xs \<and> (\<forall>y\<in>set []. \<not> P y) \<and> P x" by simp
    then show ?thesis by blast
  next
    case False
    with Cons.prems have "find P xs = Some x" by simp
    from Cons.IH[OF this] obtain pre post
      where "xs = pre @ x # post" "\<forall>y\<in>set pre. \<not> P y" "P x" by blast
    with False have "a # xs = (a # pre) @ x # post \<and> (\<forall>y\<in>set (a # pre). \<not> P y) \<and> P x"
      by simp
    then show ?thesis by blast
  qed
qed

lemma all_keys_iff: "list_all (\<lambda>char. codedict char \<noteq> None) l \<longleftrightarrow> set l \<subseteq> dom codedict"
  by (auto simp: list_all_iff domIff)

lemma first_invalid:
  assumes "\<not> set l \<subseteq> dom codedict"
  shows "\<exists>pre c post. l = pre @ c # post \<and> set pre \<subseteq> dom codedict \<and> c \<notin> dom codedict
           \<and> find (\<lambda>char. codedict char = None) l = Some c"
proof -
  from assms obtain c where f: "find (\<lambda>char. codedict char = None) l = Some c"
    by (cases "find (\<lambda>char. codedict char = None) l") (auto simp: find_None_iff domIff)
  from find_first_split[OF f] obtain pre post
    where "l = pre @ c # post" "\<forall>y\<in>set pre. codedict y \<noteq> None" "codedict c = None" by blast
  then have "l = pre @ c # post \<and> set pre \<subseteq> dom codedict \<and> c \<notin> dom codedict"
    by (auto simp: domIff)
  with f show ?thesis by blast
qed

lemma check_barcode_length:
  "\<not> (1 \<le> length l \<and> length l \<le> 12) \<Longrightarrow> check_barcode l = Inl (InvalidBarcodeLength l)"
  by (simp add: check_barcode_def)

lemma check_barcode_character:
  assumes "1 \<le> length l" "length l \<le> 12" "\<not> set l \<subseteq> dom codedict"
  shows "\<exists>pre c post. l = pre @ c # post \<and> set pre \<subseteq> dom codedict \<and> c \<notin> dom codedict
           \<and> check_barcode l = Inl (InvalidBarcodeCharacter c)"
proof -
  from first_invalid[OF assms(3)] obtain pre c post
    where *: "l = pre @ c # post" "set pre \<subseteq> dom codedict" "c \<notin> dom codedict"
      and f: "find (\<lambda>char. codedict char = None) l = Some c" by blast
  from assms f have "check_barcode l = Inl (InvalidBarcodeCharacter c)"
    unfolding check_barcode_def all_keys_iff by simp
  with * show ?thesis by blast
qed

lemma check_barcode_accept:
  "1 \<le> length l \<Longrightarrow> length l \<le> 12 \<Longrightarrow> set l \<subseteq> dom codedict \<Longrightarrow> check_barcode l = Inr ()"
  unfolding check_barcode_def all_keys_iff by simp

lemma check_barcode_Inr:
  "check_barcode l = Inr u \<Longrightarrow> 1 \<le> length l \<and> length l \<le> 12 \<and> set l \<subseteq> dom codedict"
  unfolding check_barcode_def all_keys_iff by (auto split: if_splits option.splits)

lemma check_barcode_errors:
  "check_barcode l = Inl e \<Longrightarrow>
     e = InvalidBarcodeLength l \<or> (\<exists>c. e = InvalidBarcodeCharacter c)"
  using check_barcode_length[of l] check_barcode_character[of l] check_barcode_accept[of l]
  by (cases "1 \<le> length l \<and> length l \<le> 12"; cases "set l \<subseteq> dom codedict") auto

text \<open>
  Claim C5. The check runs on the upper-cased entry. A label whose length is not between
  1 and 12 raises \<^verbatim>\<open>InvalidBarcodeLength\<close> carrying the label. Otherwise, a label with
  a character outside the dictionary raises \<^verbatim>\<open>InvalidBarcodeCharacter\<close> carrying the
  first such character from the left: everything before it is a key. A label within both
  bounds raises nothing. The prompt leaves its loop with the label in the last case and
  asks again in the other two.
\<close>

theorem check_barcode_cases:
  "(\<not> (1 \<le> length l \<and> length l \<le> 12) \<longrightarrow> check_barcode l = Inl (InvalidBarcodeLength l))
   \<and> (1 \<le> length l \<and> length l \<le> 12 \<and> \<not> set l \<subseteq> dom codedict \<longrightarrow>
        (\<exists>pre c post. l = pre @ c # post \<and> set pre \<subseteq> dom codedict \<and> c \<notin> dom codedict
           \<and> check_barcode l = Inl (InvalidBarcodeCharacter c)))
   \<and> (1 \<le> length l \<and> length l \<le> 12 \<and> set l \<subseteq> dom codedict \<longrightarrow> check_barcode l = Inr ())
   \<and> (\<forall>entry. l = upper entry \<longrightarrow>
        (case check_barcode l of
           Inr u \<Rightarrow> \<exists>lines. barcode_step entry = Break lines l
         | Inl e \<Rightarrow> \<exists>lines. barcode_step entry = Continue lines))"
proof -
  have step: "\<forall>entry. l = upper entry \<longrightarrow>
        (case check_barcode l of
           Inr u \<Rightarrow> \<exists>lines. barcode_step entry = Break lines l
         | Inl e \<Rightarrow> \<exists>lines. barcode_step entry = Continue lines)"
  proof (intro allI impI)
    fix entry assume l: "l = upper entry"
    show "case check_barcode l of
           Inr u \<Rightarrow> \<exists>lines. barcode_step entry = Break lines l
         | Inl e \<Rightarrow> \<exists>lines. barcode_step entry = Continue lines"
    proof (cases "check_barcode l")
      case (Inl e)
      from check_barcode_errors[OF this] Inl l show ?thesis
        by (auto simp: barcode_step_def Let_def)
    next
      case (Inr u)
      with l show ?thesis by (simp add: barcode_step_def Let_def)
    qed
  qed
  from check_barcode_length[of l] check_barcode_character[of l] check_barcode_accept[of l] step
  show ?thesis by blast
qed

lemma upper_ab: "upper ''ab#'' = ''AB#''"
  by (simp add: upper_def upper_char_def)

text \<open>
  The empty label, a label of 23 characters, \<^verbatim>\<open>ab#\<close> and \<^verbatim>\<open>AB12\<close>.
\<close>

theorem check_barcode_cases_witness:
  "check_barcode [] = Inl (InvalidBarcodeLength [])
   \<and> check_barcode ''*13_CHARACTERS_EXCEEDS*'' = Inl (InvalidBarcodeLength ''*13_CHARACTERS_EXCEEDS*'')
   \<and> upper ''ab#'' = ''AB#''
   \<and> check_barcode ''AB#'' = Inl (InvalidBarcodeCharacter CHR ''#'')
   \<and> check_barcode ''AB12'' = Inr ()
   \<and> (\<exists>lines. barcode_step ''ab#'' = Continue lines)"
proof -
  have a: "check_barcode [] = Inl (InvalidBarcodeLength [])"
    using check_barcode_cases[of "[]"] by simp
  have b: "check_barcode ''*13_CHARACTERS_EXCEEDS*'' = Inl (InvalidBarcodeLength ''*13_CHARACTERS_EXCEEDS*'')"
    using check_barcode_cases[of "''*13_CHARACTERS_EXCEEDS*''"] by simp
  have hyp: "1 \<le> length ''AB#'' \<and> length ''AB#'' \<le> 12 \<and> \<not> set ''AB#'' \<subseteq> dom codedict"
    by (simp add: dom_codedict alphabet_def)
  from check_barcode_cases[of "''AB#''", THEN conjunct2, THEN conjunct1, THEN mp, OF hyp]
  obtain pre c post
    where *: "''AB#'' = pre @ c # post" "set pre \<subseteq> dom codedict" "c \<notin> dom codedict"
      and r: "check_barcode ''AB#'' = Inl (InvalidBarcodeCharacter c)" by blast
  have "c = CHR ''#''"
  proof (rule ccontr)
    assume "c \<noteq> CHR ''#''"
    with *(1) have "c \<in> set ''AB''"
      by (auto simp: Cons_eq_append_conv append_eq_Cons_conv)
    then have "c \<in> dom codedict" by (auto simp: dom_codedict alphabet_def)
    with *(3) show False by simp
  qed
  with r have c: "check_barcode ''AB#'' = Inl (InvalidBarcodeCharacter CHR ''#'')" by simp
  have d: "check_barcode ''AB12'' = Inr ()"
    using check_barcode_cases[of "''AB12''"] by (simp add: dom_codedict alphabet_def)
  have e: "\<exists>lines. barcode_step ''ab#'' = Continue lines"
    using check_barcode_cases[of "''AB#''", THEN conjunct2, THEN conjunct2, THEN conjunct2,
        THEN spec, of "''ab#''"] c upper_ab by simp
  from a b c d e upper_ab show ?thesis by blast
qed

subsection \<open>The encoder on arbitrary strings\<close>

lemma str2code_invalid:
  assumes "\<not> set s \<subseteq> dom codedict"
  shows "\<exists>pre c post. s = pre @ c # post \<and> set pre \<subseteq> dom codedict \<and> c \<notin> dom codedict
           \<and> str2code s = Inl (KeyError c)"
proof -
  from first_invalid[OF assms] obtain pre c post
    where *: "s = pre @ c # post" "set pre \<subseteq> dom codedict" "c \<notin> dom codedict"
      and f: "find (\<lambda>char. codedict char = None) s = Some c" by blast
  from str2code_loop_invalid[OF assms, of "[] @ startstop"] f
  have "str2code s = Inl (KeyError c)" by (auto simp: str2code_def)
  with * show ?thesis by blast
qed

lemma prompt_loop_Break:
  "prompt_loop step entries printed = (out, Inr (v, rest)) \<Longrightarrow>
     \<exists>entry lines. entry \<in> set entries \<and> step entry = Break lines v"
proof (induction entries arbitrary: printed)
  case Nil
  then show ?case by simp
next
  case (Cons e es)
  show ?case
  proof (cases "step e")
    case (Break lines w)
    with Cons.prems have "w = v" by simp
    with Break show ?thesis by auto
  next
    case (Continue lines)
    with Cons.prems have "prompt_loop step es (printed @ lines) = (out, Inr (v, rest))" by simp
    from Cons.IH[OF this] show ?thesis by auto
  next
    case (Raise err)
    with Cons.prems show ?thesis by simp
  qed
qed

lemma barcode_step_Break:
  "barcode_step entry = Break lines label \<Longrightarrow> check_barcode label = Inr ()"
  by (auto simp: barcode_step_def Let_def split: sum.splits py_error.splits)

text \<open>
  Claim C10. \<^verbatim>\<open>str2code\<close> checks nothing itself. On a string of dictionary keys it
  returns the code whatever the length; on any other string it fails with
  \<^verbatim>\<open>KeyError\<close> at the first character that is not a key, and never with one of the two
  exception classes of the script. The checks belong to the barcode prompt: a label the
  prompt loop returns has passed \<^verbatim>\<open>check_barcode\<close>, so the barcode cell built from it
  exists.
\<close>

theorem str2code_unvalidated:
  "(set s \<subseteq> dom codedict \<longrightarrow>
      str2code s = Inr (startstop @ concat (map (\<lambda>c. the (codedict c)) s) @ startstop))
   \<and> (\<not> set s \<subseteq> dom codedict \<longrightarrow>
        (\<exists>pre c post. s = pre @ c # post \<and> set pre \<subseteq> dom codedict \<and> c \<notin> dom codedict
           \<and> str2code s = Inl (KeyError c)))
   \<and> (\<forall>b. str2code s \<noteq> Inl (InvalidBarcodeLength b))
   \<and> (\<forall>c. str2code s \<noteq> Inl (InvalidBarcodeCharacter c))
   \<and> (\<forall>entries printed out rest target.
         prompt_loop barcode_step entries printed = (out, Inr (s, rest)) \<longrightarrow>
           check_barcode s = Inr () \<and>
           (\<exists>code. str2code s = Inr code \<and> barcode_cell s target = Inr (barcad code target 0)))"
proof -
  have valid: "set s \<subseteq> dom codedict \<longrightarrow>
      str2code s = Inr (startstop @ concat (map (\<lambda>c. the (codedict c)) s) @ startstop)"
    by (simp add: str2code_valid)
  have invalid: "\<not> set s \<subseteq> dom codedict \<longrightarrow>
        (\<exists>pre c post. s = pre @ c # post \<and> set pre \<subseteq> dom codedict \<and> c \<notin> dom codedict
           \<and> str2code s = Inl (KeyError c))"
    using str2code_invalid by blast
  have no_len: "\<forall>b. str2code s \<noteq> Inl (InvalidBarcodeLength b)"
    using valid invalid by (cases "set s \<subseteq> dom codedict") auto
  have no_chr: "\<forall>c. str2code s \<noteq> Inl (InvalidBarcodeCharacter c)"
    using valid invalid by (cases "set s \<subseteq> dom codedict") auto
  have loop: "\<forall>entries printed out rest target.
         prompt_loop barcode_step entries printed = (out, Inr (s, rest)) \<longrightarrow>
           check_barcode s = Inr () \<and>
           (\<exists>code. str2code s = Inr code \<and> barcode_cell s target = Inr (barcad code target 0))"
  proof (intro allI impI)
    fix entries printed out rest target
    assume "prompt_loop barcode_step entries printed = (out, Inr (s, rest))"
    from prompt_loop_Break[OF this] obtain entry lines
      where "barcode_step entry = Break lines s" by blast
    then have ok: "check_barcode s = Inr ()" by (rule barcode_step_Break)
    from check_barcode_Inr[OF ok] have "set s \<subseteq> dom codedict" by simp
    with valid have "\<exists>code. str2code s = Inr code \<and> barcode_cell s target = Inr (barcad code target 0)"
      by (simp add: barcode_cell_def)
    with ok show "check_barcode s = Inr () \<and>
           (\<exists>code. str2code s = Inr code \<and> barcode_cell s target = Inr (barcad code target 0))"
      by simp
  qed
  from valid invalid no_len no_chr loop show ?thesis by blast
qed

lemma upper_ab12: "upper ''ab12'' = ''AB12''"
  by (simp add: upper_def upper_char_def)

lemma barcode_loop_example:
  "prompt_loop barcode_step ['''', ''ab#'', ''ab12''] [] =
     ([barcode_error_line (str_InvalidBarcodeLength ''''),
       barcode_error_line (str_InvalidBarcodeCharacter CHR ''#''),
       ''Barcode '' @ quoted ''AB12'' @ '' is valid.''], Inr (''AB12'', []))"
  by (simp add: barcode_step_def check_barcode_def upper_def upper_char_def codedict_def
      codedict_items_def Let_def)

text \<open>
  The empty string and a string of 13 letters are encoded although the check rejects
  both; \<^verbatim>\<open>AB#\<close> fails with \<^verbatim>\<open>KeyError\<close> where the check raises
  \<^verbatim>\<open>InvalidBarcodeCharacter\<close>; after two rejected entries the prompt returns
  \<^verbatim>\<open>AB12\<close>.
\<close>

theorem str2code_unvalidated_witness:
  "str2code [] = Inr (startstop @ startstop)
   \<and> check_barcode [] = Inl (InvalidBarcodeLength [])
   \<and> (\<exists>code. str2code ''ABCDEFGHIJKLM'' = Inr code \<and> length code = 150)
   \<and> check_barcode ''ABCDEFGHIJKLM'' = Inl (InvalidBarcodeLength ''ABCDEFGHIJKLM'')
   \<and> str2code ''AB#'' = Inl (KeyError CHR ''#'')
   \<and> check_barcode ''AB#'' = Inl (InvalidBarcodeCharacter CHR ''#'')
   \<and> (\<exists>code. barcode_cell ''AB12'' 4 = Inr (barcad code 4 0))"
proof -
  have a: "str2code [] = Inr (startstop @ startstop)"
    using str2code_unvalidated[of "[]"] by simp
  have sub: "set ''ABCDEFGHIJKLM'' \<subseteq> dom codedict" by (simp add: dom_codedict alphabet_def)
  from str2code_unvalidated[of "''ABCDEFGHIJKLM''", THEN conjunct1, THEN mp, OF sub]
  have b: "\<exists>code. str2code ''ABCDEFGHIJKLM'' = Inr code \<and> length code = 150"
    using length_patterns[OF sub] by (simp add: length_startstop)
  have nsub: "\<not> set ''AB#'' \<subseteq> dom codedict" by (simp add: dom_codedict alphabet_def)
  from str2code_unvalidated[of "''AB#''", THEN conjunct2, THEN conjunct1, THEN mp, OF nsub]
  obtain pre c post
    where *: "''AB#'' = pre @ c # post" "set pre \<subseteq> dom codedict" "c \<notin> dom codedict"
      and r: "str2code ''AB#'' = Inl (KeyError c)" by blast
  have "c = CHR ''#''"
  proof (rule ccontr)
    assume "c \<noteq> CHR ''#''"
    with *(1) have "c \<in> set ''AB''"
      by (auto simp: Cons_eq_append_conv append_eq_Cons_conv)
    then have "c \<in> dom codedict" by (auto simp: dom_codedict alphabet_def)
    with *(3) show False by simp
  qed
  with r have c: "str2code ''AB#'' = Inl (KeyError CHR ''#'')" by simp
  have d: "check_barcode [] = Inl (InvalidBarcodeLength [])"
      "check_barcode ''ABCDEFGHIJKLM'' = Inl (InvalidBarcodeLength ''ABCDEFGHIJKLM'')"
    by (simp_all add: check_barcode_def)
  have e: "check_barcode ''AB#'' = Inl (InvalidBarcodeCharacter CHR ''#'')"
    by (simp add: check_barcode_def codedict_def codedict_items_def)
  from str2code_unvalidated[of "''AB12''", THEN conjunct2, THEN conjunct2, THEN conjunct2,
      THEN conjunct2, THEN spec, THEN spec, THEN spec, THEN spec, THEN spec, THEN mp,
      OF barcode_loop_example, of 4]
  have f: "\<exists>code. barcode_cell ''AB12'' 4 = Inr (barcad code 4 0)" by blast
  from a b c d e f show ?thesis by blast
qed

subsection \<open>The output file name\<close>

lemma lower_append: "lower (s @ t) = lower s @ lower t"
  by (simp add: lower_def)

lemma lower_gds: "lower ''.gds'' = ''.gds''"
  by (simp add: lower_def lower_char_def)

lemma suffix_lower: "suffix ''.gds'' f \<Longrightarrow> suffix ''.gds'' (lower f)"
  by (auto simp: suffix_def lower_append lower_gds)

text \<open>
  Claim C8, as amended. The comparison is made on the lower-cased name. The name used for
  the write ends with \<^verbatim>\<open>.gds\<close> up to letter case; a name that already does is used
  unchanged, in particular one that ends with \<^verbatim>\<open>.gds\<close> as written; any other name
  gets \<^verbatim>\<open>.gds\<close> appended.
\<close>

theorem output_name_suffix:
  "suffix ''.gds'' (lower (output_name f))
   \<and> (suffix ''.gds'' (lower f) \<longrightarrow> output_name f = f)
   \<and> (\<not> suffix ''.gds'' (lower f) \<longrightarrow> output_name f = f @ ''.gds'' \<and> suffix ''.gds'' (output_name f))
   \<and> (suffix ''.gds'' f \<longrightarrow> output_name f = f)"
proof -
  have "suffix ''.gds'' (lower (f @ ''.gds''))"
    unfolding lower_append lower_gds by (rule suffix_appendI) simp
  moreover have "suffix ''.gds'' (f @ ''.gds'')"
    by (rule suffix_appendI) simp
  ultimately show ?thesis
    using suffix_lower[of f] by (auto simp: output_name_def)
qed

lemma lower_merged: "lower ''merged'' = ''merged''" "lower ''Out.Gds'' = ''out.gds''"
  by (simp_all add: lower_def lower_char_def)

text \<open>
  A name without the suffix, one with the suffix in mixed case, and one with the suffix.
\<close>

theorem output_name_suffix_witness:
  "output_name ''merged'' = ''merged.gds'' \<and> output_name ''Out.Gds'' = ''Out.Gds''
   \<and> output_name ''a.gds'' = ''a.gds''"
proof -
  have n: "\<not> suffix ''.gds'' (lower ''merged'')"
    unfolding lower_merged by (simp add: suffix_to_prefix)
  have y: "suffix ''.gds'' (lower ''Out.Gds'')"
    unfolding lower_merged by (simp add: suffix_to_prefix)
  have z: "suffix ''.gds'' ''a.gds''" by (simp add: suffix_to_prefix)
  from output_name_suffix[of "''merged''"] n output_name_suffix[of "''Out.Gds''"] y
    output_name_suffix[of "''a.gds''"] z
  show ?thesis by simp
qed

text \<open>
  Claim C8 as stated lets every name used for the write end with \<^verbatim>\<open>.gds\<close>. The name
  \<^verbatim>\<open>MASK.GDS\<close> is used as it is.
\<close>

theorem output_name_counterexample:
  "output_name ''MASK.GDS'' = ''MASK.GDS'' \<and> \<not> suffix ''.gds'' (output_name ''MASK.GDS'')"
  by (simp add: output_name_def lower_def lower_char_def suffix_to_prefix)

subsection \<open>The barcode geometry\<close>

lemma barcad_loop_eq:
  "barcad_loop ts l d x added = (x + width ts, added @ bars_from x ts l d)"
  by (induction ts arbitrary: x added) (auto simp: width_def gdstk_rectangle_def bar_at_def)

lemma barcad_elements: "elements (barcad ts l d) = bars_from 0 ts l d"
  by (simp add: barcad_def barcad_loop_eq)

lemma barcad_xcurr_width: "barcad_xcurr ts l d = width ts"
  by (simp add: barcad_xcurr_def barcad_loop_eq)

lemma bars_from_append:
  "bars_from x (ts @ us) l d = bars_from x ts l d @ bars_from (x + width ts) us l d"
  by (induction ts arbitrary: x) (auto simp: width_def add.assoc)

lemma length_bars_from: "length (bars_from x ts l d) = inks ts"
  by (induction ts arbitrary: x) (auto simp: inks_def)

lemma width_nonneg: "0 \<le> width ts"
  by (induction ts) (auto simp: width_def)

lemma width_Cons: "width (t # ts) = \<bar>t\<bar> + width ts"
  by (simp add: width_def)

lemma width_append: "width (ts @ us) = width ts + width us"
  by (simp add: width_def)

lemma inks_append: "inks (ts @ us) = inks ts + inks us"
  by (simp add: inks_def)

lemma inks_negative: "\<forall>g\<in>set gs. g < 0 \<Longrightarrow> inks gs = 0"
  by (induction gs) (auto simp: inks_def)

lemma bars_from_negative: "\<forall>g\<in>set gs. g < 0 \<Longrightarrow> bars_from x gs l d = []"
  by (induction gs arbitrary: x) auto

lemma nonzero_partition:
  "0 \<notin> set ts \<Longrightarrow> inks ts + length (filter (\<lambda>t. t < 0) ts) = length ts"
  by (induction ts) (auto simp: inks_def)

lemma bars_from_shape:
  "r \<in> set (bars_from x ts l d) \<Longrightarrow>
     x \<le> fst (corner1 r) \<and> fst (corner1 r) < fst (corner2 r) \<and> fst (corner2 r) \<le> x + width ts
     \<and> snd (corner1 r) = - barheight / 2 \<and> snd (corner2 r) = barheight / 2
     \<and> rect_layer r = l \<and> rect_datatype r = d"
proof (induction ts arbitrary: x)
  case Nil
  then show ?case by simp
next
  case (Cons t ts)
  from Cons.prems consider "t > 0" "r = bar_at x \<bar>t\<bar> l d" | "r \<in> set (bars_from (x + \<bar>t\<bar>) ts l d)"
    by (auto split: if_splits)
  then show ?case
  proof cases
    case 1
    then show ?thesis using width_nonneg[of ts] by (simp add: bar_at_def width_Cons)
  next
    case 2
    from Cons.IH[OF this] have "x + \<bar>t\<bar> \<le> fst (corner1 r)" by simp
    then have "x \<le> fst (corner1 r)" by linarith
    with Cons.IH[OF 2] show ?thesis by (simp add: width_Cons add.assoc)
  qed
qed

lemma bars_from_nth:
  assumes "k < length ts" "ts ! k > 0"
  shows "bars_from x ts l d ! inks (take k ts) = bar_at (x + width (take k ts)) \<bar>ts ! k\<bar> l d"
proof -
  have ts: "ts = take k ts @ (ts ! k) # drop (Suc k) ts"
    using assms(1) by (simp add: id_take_nth_drop)
  have "bars_from x ts l d = bars_from x (take k ts) l d
          @ bars_from (x + width (take k ts)) ((ts ! k) # drop (Suc k) ts) l d"
    by (subst ts, subst bars_from_append) simp
  then show ?thesis
    using assms(2) by (simp add: nth_append length_bars_from)
qed

lemma bars_from_sorted:
  "i < j \<Longrightarrow> j < length (bars_from x ts l d) \<Longrightarrow>
     fst (corner2 (bars_from x ts l d ! i)) \<le> fst (corner1 (bars_from x ts l d ! j))"
proof (induction ts arbitrary: x i j)
  case Nil
  then show ?case by simp
next
  case (Cons t ts)
  let ?rest = "bars_from (x + \<bar>t\<bar>) ts l d"
  show ?case
  proof (cases "t > 0")
    case False
    with Cons show ?thesis by simp
  next
    case True
    then have eq: "bars_from x (t # ts) l d = bar_at x \<bar>t\<bar> l d # ?rest" by simp
    from Cons.prems obtain j' where j: "j = Suc j'" by (cases j) auto
    with Cons.prems eq have j'len: "j' < length ?rest" by simp
    show ?thesis
    proof (cases i)
      case 0
      have "?rest ! j' \<in> set ?rest" using j'len by simp
      from bars_from_shape[OF this] show ?thesis
        unfolding eq j 0 by (simp add: bar_at_def)
    next
      case (Suc i')
      with Cons.prems j have "i' < j'" by simp
      from Cons.IH[OF this j'len] show ?thesis
        unfolding eq j Suc by simp
    qed
  qed
qed

lemma bars_from_gap:
  assumes "0 < a" "0 < b" "\<forall>g\<in>set gaps. g < 0"
  shows "fst (corner1 (bars_from x (pre @ a # gaps @ b # post) l d ! Suc (inks pre)))
           - fst (corner2 (bars_from x (pre @ a # gaps @ b # post) l d ! inks pre))
         = width gaps"
proof -
  let ?ts = "pre @ a # gaps @ b # post"
  have eq: "bars_from x ?ts l d = bars_from x pre l d
              @ bar_at (x + width pre) \<bar>a\<bar> l d
              # bar_at (x + width pre + \<bar>a\<bar> + width gaps) \<bar>b\<bar> l d
              # bars_from (x + width pre + \<bar>a\<bar> + width gaps + \<bar>b\<bar>) post l d"
    using assms by (simp add: bars_from_append bars_from_negative add.assoc)
  show ?thesis
    unfolding eq using assms(1) by (simp add: nth_append length_bars_from bar_at_def)
qed

lemma bars_from_widths:
  "sum_list (map (\<lambda>r. fst (corner2 r) - fst (corner1 r)) (bars_from x ts l d))
     + width (filter (\<lambda>t. t < 0) ts) = width ts"
  by (induction ts arbitrary: x) (auto simp: width_def bar_at_def)

text \<open>
  Claim C2. For a token list without a zero token, \<^verbatim>\<open>barcad\<close> adds one rectangle per
  positive token and none for a negative one, and the cursor ends at the sum of all
  magnitudes. The rectangle of a positive token spans from the sum of the magnitudes before
  it to that sum plus its own magnitude, between \<open>- barheight / 2\<close> and
  \<open>barheight / 2\<close>, on the given layer and datatype. The rectangles follow each other
  from left to right without overlap, inside the total span; two bars with only gaps
  between them are separated by exactly the sum of those gaps; the bar widths and the gap
  magnitudes add up to the total span.
\<close>

theorem barcad_layout:
  assumes "0 \<notin> set ts"
  shows "length (elements (barcad ts l d)) = length (filter (\<lambda>t. 0 < t) ts)
    \<and> length (elements (barcad ts l d)) + length (filter (\<lambda>t. t < 0) ts) = length ts
    \<and> barcad_xcurr ts l d = sum_list (map abs ts)
    \<and> (\<forall>k<length ts. 0 < ts ! k \<longrightarrow>
          elements (barcad ts l d) ! length (filter (\<lambda>t. 0 < t) (take k ts))
            = \<lparr>corner1 = (sum_list (map abs (take k ts)), - barheight / 2),
               corner2 = (sum_list (map abs (take k ts)) + \<bar>ts ! k\<bar>, barheight / 2),
               rect_layer = l, rect_datatype = d\<rparr>)
    \<and> (\<forall>i j. i < j \<and> j < length (elements (barcad ts l d)) \<longrightarrow>
          fst (corner2 (elements (barcad ts l d) ! i))
            \<le> fst (corner1 (elements (barcad ts l d) ! j)))
    \<and> (\<forall>r\<in>set (elements (barcad ts l d)).
          0 \<le> fst (corner1 r) \<and> fst (corner1 r) < fst (corner2 r)
          \<and> fst (corner2 r) \<le> sum_list (map abs ts)
          \<and> snd (corner1 r) = - barheight / 2 \<and> snd (corner2 r) = barheight / 2)
    \<and> (\<forall>pre a gaps b post.
          ts = pre @ a # gaps @ b # post \<and> 0 < a \<and> 0 < b \<and> (\<forall>g\<in>set gaps. g < 0) \<longrightarrow>
            fst (corner1 (elements (barcad ts l d) ! Suc (length (filter (\<lambda>t. 0 < t) pre))))
              - fst (corner2 (elements (barcad ts l d) ! length (filter (\<lambda>t. 0 < t) pre)))
            = sum_list (map abs gaps))
    \<and> sum_list (map (\<lambda>r. fst (corner2 r) - fst (corner1 r)) (elements (barcad ts l d)))
        + sum_list (map abs (filter (\<lambda>t. t < 0) ts)) = sum_list (map abs ts)"
proof -
  let ?rs = "elements (barcad ts l d)"
  have c1: "length ?rs = length (filter (\<lambda>t. 0 < t) ts)"
    by (simp add: barcad_elements length_bars_from inks_def)
  have c2: "length ?rs + length (filter (\<lambda>t. t < 0) ts) = length ts"
    using nonzero_partition[OF assms] by (simp add: barcad_elements length_bars_from)
  have c3: "barcad_xcurr ts l d = sum_list (map abs ts)"
    by (simp add: barcad_xcurr_width width_def)
  have c4: "\<forall>k<length ts. 0 < ts ! k \<longrightarrow>
          ?rs ! length (filter (\<lambda>t. 0 < t) (take k ts))
            = \<lparr>corner1 = (sum_list (map abs (take k ts)), - barheight / 2),
               corner2 = (sum_list (map abs (take k ts)) + \<bar>ts ! k\<bar>, barheight / 2),
               rect_layer = l, rect_datatype = d\<rparr>"
    using bars_from_nth[of _ ts 0 l d]
    by (simp add: barcad_elements inks_def width_def bar_at_def)
  have c5: "\<forall>i j. i < j \<and> j < length ?rs \<longrightarrow> fst (corner2 (?rs ! i)) \<le> fst (corner1 (?rs ! j))"
    using bars_from_sorted[of _ _ 0 ts l d] by (simp add: barcad_elements)
  have c6: "\<forall>r\<in>set ?rs.
          0 \<le> fst (corner1 r) \<and> fst (corner1 r) < fst (corner2 r)
          \<and> fst (corner2 r) \<le> sum_list (map abs ts)
          \<and> snd (corner1 r) = - barheight / 2 \<and> snd (corner2 r) = barheight / 2"
    using bars_from_shape[of _ 0 ts l d] by (simp add: barcad_elements width_def)
  have c7: "\<forall>pre a gaps b post.
          ts = pre @ a # gaps @ b # post \<and> 0 < a \<and> 0 < b \<and> (\<forall>g\<in>set gaps. g < 0) \<longrightarrow>
            fst (corner1 (?rs ! Suc (length (filter (\<lambda>t. 0 < t) pre))))
              - fst (corner2 (?rs ! length (filter (\<lambda>t. 0 < t) pre)))
            = sum_list (map abs gaps)"
  proof (intro allI impI, elim conjE)
    fix pre a gaps b post
    assume "ts = pre @ a # gaps @ b # post" "0 < a" "0 < b" "\<forall>g\<in>set gaps. g < 0"
    with bars_from_gap[of a b gaps 0 pre post l d]
    show "fst (corner1 (?rs ! Suc (length (filter (\<lambda>t. 0 < t) pre))))
              - fst (corner2 (?rs ! length (filter (\<lambda>t. 0 < t) pre)))
            = sum_list (map abs gaps)"
      by (simp add: barcad_elements inks_def width_def)
  qed
  have c8: "sum_list (map (\<lambda>r. fst (corner2 r) - fst (corner1 r)) ?rs)
        + sum_list (map abs (filter (\<lambda>t. t < 0) ts)) = sum_list (map abs ts)"
    using bars_from_widths[of 0 ts l d] by (simp add: barcad_elements width_def)
  from c1 c2 c3 c4 c5 c6 c7 c8 show ?thesis by blast
qed

lemma barcad_example:
  "elements (barcad [200, - 450, 450, - 200] 4 0) =
     [\<lparr>corner1 = (0, - 2500), corner2 = (200, 2500), rect_layer = 4, rect_datatype = 0\<rparr>,
      \<lparr>corner1 = (650, - 2500), corner2 = (1100, 2500), rect_layer = 4, rect_datatype = 0\<rparr>]"
  by (simp add: barcad_def gdstk_rectangle_def barheight_def scale_def)

text \<open>
  A narrow bar, a wide gap, a wide bar and a narrow gap: two rectangles, 450 apart, and a
  cursor that ends at 1300.
\<close>

theorem barcad_layout_witness:
  "0 \<notin> set [200, - 450, 450, - 200 :: real]
   \<and> elements (barcad [200, - 450, 450, - 200] 4 0) =
     [\<lparr>corner1 = (0, - 2500), corner2 = (200, 2500), rect_layer = 4, rect_datatype = 0\<rparr>,
      \<lparr>corner1 = (650, - 2500), corner2 = (1100, 2500), rect_layer = 4, rect_datatype = 0\<rparr>]
   \<and> length (elements (barcad [200, - 450, 450, - 200] 4 0)) = 2
   \<and> barcad_xcurr [200, - 450, 450, - 200] 4 0 = 1300
   \<and> fst (corner1 (elements (barcad [200, - 450, 450, - 200] 4 0) ! Suc 0))
       - fst (corner2 (elements (barcad [200, - 450, 450, - 200] 4 0) ! 0)) = 450"
proof -
  have h: "0 \<notin> set [200, - 450, 450, - 200 :: real]" by simp
  note layout = barcad_layout[OF h, of 4 0]
  from layout
  have n: "length (elements (barcad [200, - 450, 450, - 200] 4 0)) = 2"
    and x: "barcad_xcurr [200, - 450, 450, - 200] 4 0 = 1300"
    by simp_all
  from layout
  have "\<forall>pre a gaps b post.
          [200, - 450, 450, - 200 :: real] = pre @ a # gaps @ b # post \<and> 0 < a \<and> 0 < b
            \<and> (\<forall>g\<in>set gaps. g < 0) \<longrightarrow>
            fst (corner1 (elements (barcad [200, - 450, 450, - 200] 4 0)
                   ! Suc (length (filter (\<lambda>t. 0 < t) pre))))
              - fst (corner2 (elements (barcad [200, - 450, 450, - 200] 4 0)
                   ! length (filter (\<lambda>t. 0 < t) pre)))
            = sum_list (map abs gaps)"
    by blast
  from this[rule_format, of "[]" 200 "[- 450]" 450 "[- 200]"]
  have g: "fst (corner1 (elements (barcad [200, - 450, 450, - 200] 4 0) ! Suc 0))
       - fst (corner2 (elements (barcad [200, - 450, 450, - 200] 4 0) ! 0)) = 450"
    by simp
  from h barcad_example n x g show ?thesis by blast
qed

subsection \<open>The layer conflict resolver\<close>

lemma resolve_no_conflict:
  "user \<inter> (template \<union> {(4, 0)}) = {} \<Longrightarrow>
     resolve_layers user template = \<lparr>remap_dict = None, barcode_target_layer = 4\<rparr>"
  by (simp add: resolve_layers_def barcode_layer_datatype_def)

lemma resolve_conflict:
  "user \<inter> (template \<union> {(4, 0)}) \<noteq> {} \<Longrightarrow>
     resolve_layers user template =
       \<lparr>remap_dict = Some (\<lambda>old_ld. if old_ld \<in> template \<union> {(4, 0)}
                                   then Some (Max (fst ` user) + 1, snd old_ld) else None),
        barcode_target_layer = Max (fst ` user) + 1\<rparr>"
  by (auto simp: resolve_layers_def barcode_layer_datatype_def Let_def)

lemma Max_layer:
  assumes "finite user" "user \<noteq> {}"
  shows "Max (fst ` user) \<in> fst ` user" "\<forall>p\<in>user. fst p \<le> Max (fst ` user)"
proof -
  from assms have f: "finite (fst ` user)" and n: "fst ` user \<noteq> {}" by simp_all
  from Max_in[OF f n] show "Max (fst ` user) \<in> fst ` user" .
  from f show "\<forall>p\<in>user. fst p \<le> Max (fst ` user)" by simp
qed

text \<open>
  Claim C3. With the reserved pair \<open>(4, 0)\<close> and the conflicts
  \<open>user \<inter> (template \<union> {(4, 0)})\<close>: without a conflict nothing is remapped and the
  barcode layer is 4. With a conflict the new layer is the largest user layer (0 if there
  were none) plus one, the remap dictionary has exactly the pairs of
  \<open>template \<union> {(4, 0)}\<close> as keys and sends each to the new layer with its own
  datatype, and the barcode layer is the new layer.
\<close>

theorem resolve_layers_contract:
  assumes "finite user" and "finite template"
  shows "(user \<inter> (template \<union> {(4, 0)}) = {} \<longrightarrow>
            remap_dict (resolve_layers user template) = None
            \<and> barcode_target_layer (resolve_layers user template) = 4
            \<and> template_pairs_after user template = template)
       \<and> (user \<inter> (template \<union> {(4, 0)}) \<noteq> {} \<longrightarrow>
            (\<exists>m new_layer.
               remap_dict (resolve_layers user template) = Some m
               \<and> barcode_target_layer (resolve_layers user template) = new_layer
               \<and> new_layer = (if fst ` user = {} then 0 else Max (fst ` user)) + 1
               \<and> new_layer - 1 \<in> fst ` user \<and> (\<forall>p\<in>user. fst p \<le> new_layer - 1)
               \<and> dom m = template \<union> {(4, 0)}
               \<and> (\<forall>p\<in>template \<union> {(4, 0)}. m p = Some (new_layer, snd p))))"
proof (intro conjI impI)
  assume none: "user \<inter> (template \<union> {(4, 0)}) = {}"
  from resolve_no_conflict[OF none]
  show "remap_dict (resolve_layers user template) = None"
    and "barcode_target_layer (resolve_layers user template) = 4"
    and "template_pairs_after user template = template"
    by (simp_all add: template_pairs_after_def)
next
  assume some: "user \<inter> (template \<union> {(4, 0)}) \<noteq> {}"
  then have ne: "user \<noteq> {}" by blast
  let ?nl = "Max (fst ` user) + 1"
  let ?m = "\<lambda>old_ld. if old_ld \<in> template \<union> {(4, 0)} then Some (?nl, snd old_ld) else None"
  have r: "remap_dict (resolve_layers user template) = Some ?m"
    and t: "barcode_target_layer (resolve_layers user template) = ?nl"
    by (simp_all add: resolve_conflict[OF some])
  have nl: "?nl = (if fst ` user = {} then 0 else Max (fst ` user)) + 1"
    using ne by simp
  have mx: "?nl - 1 \<in> fst ` user" "\<forall>p\<in>user. fst p \<le> ?nl - 1"
    using Max_layer[OF assms(1) ne] by simp_all
  have d: "dom ?m = template \<union> {(4, 0)}"
    by (auto simp: dom_def)
  have v: "\<forall>p\<in>template \<union> {(4, 0)}. ?m p = Some (?nl, snd p)"
    by simp
  from r t nl mx d v
  show "\<exists>m new_layer.
               remap_dict (resolve_layers user template) = Some m
               \<and> barcode_target_layer (resolve_layers user template) = new_layer
               \<and> new_layer = (if fst ` user = {} then 0 else Max (fst ` user)) + 1
               \<and> new_layer - 1 \<in> fst ` user \<and> (\<forall>p\<in>user. fst p \<le> new_layer - 1)
               \<and> dom m = template \<union> {(4, 0)}
               \<and> (\<forall>p\<in>template \<union> {(4, 0)}. m p = Some (new_layer, snd p))"
    by blast
qed

text \<open>
  The two examples of the specification: user \<open>{(1, 0)}\<close> against template
  \<open>{(2, 0)}\<close> keeps layer 4; user \<open>{(4, 0)}\<close> gives layer 5 and sends
  \<open>(2, 0)\<close> and \<open>(4, 0)\<close> to \<open>(5, 0)\<close>.
\<close>

theorem resolve_layers_contract_witness:
  "finite {(1, 0 :: int) :: int \<times> int} \<and> finite {(4, 0 :: int) :: int \<times> int}
   \<and> finite {(2, 0 :: int) :: int \<times> int}
   \<and> remap_dict (resolve_layers {(1, 0)} {(2, 0)}) = None
   \<and> barcode_target_layer (resolve_layers {(1, 0)} {(2, 0)}) = 4
   \<and> barcode_target_layer (resolve_layers {(4, 0)} {(2, 0)}) = 5
   \<and> (\<exists>m. remap_dict (resolve_layers {(4, 0)} {(2, 0)}) = Some m
          \<and> m (2, 0) = Some (5, 0) \<and> m (4, 0) = Some (5, 0))"
proof -
  have f1: "finite {(1, 0 :: int) :: int \<times> int}" and f4: "finite {(4, 0 :: int) :: int \<times> int}"
    and f2: "finite {(2, 0 :: int) :: int \<times> int}" by simp_all
  have a: "remap_dict (resolve_layers {(1, 0)} {(2, 0)}) = None
           \<and> barcode_target_layer (resolve_layers {(1, 0)} {(2, 0)}) = 4"
    using resolve_layers_contract[OF f1 f2] by simp
  from resolve_layers_contract[OF f4 f2]
  obtain m new_layer where m: "remap_dict (resolve_layers {(4, 0)} {(2, 0)}) = Some m"
    and t: "barcode_target_layer (resolve_layers {(4, 0)} {(2, 0)}) = new_layer"
    and nl: "new_layer = (if fst ` {(4 :: int, 0 :: int)} = {} then 0 else Max (fst ` {(4 :: int, 0 :: int)})) + 1"
    and v: "\<forall>p\<in>{(2, 0)} \<union> {(4, 0)}. m p = Some (new_layer, snd p)"
    by auto
  from nl have "new_layer = 5" by simp
  with m t v have "barcode_target_layer (resolve_layers {(4, 0)} {(2, 0)}) = 5
     \<and> (\<exists>m. remap_dict (resolve_layers {(4, 0)} {(2, 0)}) = Some m
          \<and> m (2, 0) = Some (5, 0) \<and> m (4, 0) = Some (5, 0))"
    by simp
  with f1 f4 f2 a show ?thesis by blast
qed

lemma ran_remap:
  "ran (\<lambda>old_ld. if old_ld \<in> A then Some (nl, snd old_ld) else None) = (\<lambda>p. (nl, snd p)) ` A"
proof (intro set_eqI iffI)
  fix q assume "q \<in> ran (\<lambda>old_ld. if old_ld \<in> A then Some (nl, snd old_ld) else None)"
  then obtain p where "(if p \<in> A then Some (nl, snd p) else None) = Some q"
    unfolding ran_def by blast
  then have "p \<in> A" "q = (nl, snd p)" by (auto split: if_splits)
  then show "q \<in> (\<lambda>p. (nl, snd p)) ` A" by blast
next
  fix q assume "q \<in> (\<lambda>p. (nl, snd p)) ` A"
  then obtain p where "p \<in> A" "q = (nl, snd p)" by blast
  then have "(if p \<in> A then Some (nl, snd p) else None) = Some q" by simp
  then show "q \<in> ran (\<lambda>old_ld. if old_ld \<in> A then Some (nl, snd old_ld) else None)"
    unfolding ran_def by blast
qed

text \<open>
  Claim C4. When there is a conflict, every pair in the range of the remap dictionary, and
  the pair of the generated barcode, label and date geometry (the barcode layer with
  datatype 0), lies on a layer strictly above every layer of the user design. So no such
  pair is a pair of the user design, and the pairs of the template after the remap are
  disjoint from those of the user design.
\<close>

theorem remap_above_user_layers:
  assumes "finite user" and "user \<inter> (template \<union> {(4, 0)}) \<noteq> {}"
  shows "\<exists>m. remap_dict (resolve_layers user template) = Some m
           \<and> (\<forall>q\<in>ran m \<union> {(barcode_target_layer (resolve_layers user template), 0)}.
                 \<forall>u\<in>user. fst u < fst q)
           \<and> ran m \<inter> user = {}
           \<and> (barcode_target_layer (resolve_layers user template), 0) \<notin> user
           \<and> template_pairs_after user template = remap_pairs m template
           \<and> template_pairs_after user template \<subseteq> ran m
           \<and> template_pairs_after user template \<inter> user = {}"
proof -
  from assms(2) have ne: "user \<noteq> {}" by blast
  let ?nl = "Max (fst ` user) + 1"
  let ?m = "\<lambda>old_ld. if old_ld \<in> template \<union> {(4, 0)} then Some (?nl, snd old_ld) else None"
  have r: "remap_dict (resolve_layers user template) = Some ?m"
    and t: "barcode_target_layer (resolve_layers user template) = ?nl"
    by (simp_all add: resolve_conflict[OF assms(2)])
  have above: "\<forall>u\<in>user. fst u < ?nl"
    using Max_layer(2)[OF assms(1) ne] by fastforce
  have ran: "ran ?m = (\<lambda>p. (?nl, snd p)) ` (template \<union> {(4, 0)})"
    by (rule ran_remap)
  have c1: "\<forall>q\<in>ran ?m \<union> {(?nl, 0)}. \<forall>u\<in>user. fst u < fst q"
    unfolding ran using above by auto
  have c2: "ran ?m \<inter> user = {}"
    unfolding ran using above by fastforce
  have c3: "(?nl, 0) \<notin> user"
    using above by fastforce
  have c4: "template_pairs_after user template = remap_pairs ?m template"
    by (simp add: template_pairs_after_def r)
  have c5: "remap_pairs ?m template \<subseteq> ran ?m"
    unfolding ran by (auto simp: remap_pairs_def)
  from c2 c4 c5 have c6: "template_pairs_after user template \<inter> user = {}" by blast
  from r t c1 c2 c3 c4 c5 c6 show ?thesis by (metis (no_types, lifting))
qed

text \<open>
  A user design on \<open>(4, 0)\<close> and \<open>(7, 2)\<close> against a template on \<open>(2, 0)\<close> and
  \<open>(4, 1)\<close>: the template moves to layer 8.
\<close>

theorem remap_above_user_layers_witness:
  "finite {(4, 0 :: int) :: int \<times> int, (7, 2)}
   \<and> {(4, 0), (7, 2)} \<inter> ({(2, 0), (4, 1)} \<union> {(4, 0)}) \<noteq> ({} :: (int \<times> int) set)
   \<and> barcode_target_layer (resolve_layers {(4, 0), (7, 2)} {(2, 0), (4, 1)}) = 8
   \<and> template_pairs_after {(4, 0), (7, 2)} {(2, 0), (4, 1)} = {(8, 0), (8, 1)}
   \<and> template_pairs_after {(4, 0), (7, 2)} {(2, 0), (4, 1)} \<inter> {(4, 0), (7, 2)} = {}"
proof -
  have f: "finite {(4, 0 :: int) :: int \<times> int, (7, 2)}" by simp
  have c: "{(4, 0), (7, 2)} \<inter> ({(2, 0), (4, 1)} \<union> {(4, 0)}) \<noteq> ({} :: (int \<times> int) set)" by simp
  from remap_above_user_layers[OF f c]
  have d: "template_pairs_after {(4, 0), (7, 2)} {(2, 0), (4, 1)} \<inter> {(4, 0), (7, 2)} = {}"
    by blast
  have t: "barcode_target_layer (resolve_layers {(4, 0), (7, 2)} {(2, 0), (4, 1)}) = 8"
    by (simp add: resolve_conflict[OF c])
  have p: "template_pairs_after {(4, 0), (7, 2)} {(2, 0), (4, 1)} = {(8, 0), (8, 1)}"
    by (simp add: template_pairs_after_def resolve_conflict[OF c] remap_pairs_def)
  from f c t p d show ?thesis by blast
qed

subsection \<open>Messages of the prompts\<close>







lemma length_line_example:
  "barcode_step ''ABCDEFGHIJKLM'' =
     Continue [''Error: Barcode must be between 1 and 12 characters long. Please use only A-Z, 0-9, and the characters: - . $ / + %'']"
  by (simp add: barcode_step_def check_barcode_def upper_def upper_char_def Let_def
      barcode_error_line_def str_InvalidBarcodeLength_def)

subsection \<open>Centring of label and date\<close>

lemma Min_step:
  fixes a :: real
  assumes "finite A" "A \<noteq> {}" "finite B"
  shows "Min (insert (min a (Min A)) B) = Min (insert a (A \<union> B))"
proof (cases "B = {}")
  case True
  with assms show ?thesis by simp
next
  case False
  with assms have "Min (insert a (A \<union> B)) = min a (min (Min A) (Min B))"
    by (simp add: Min_Un)
  moreover from assms False have "Min (insert (min a (Min A)) B) = min (min a (Min A)) (Min B)"
    by simp
  ultimately show ?thesis by (simp add: min.assoc)
qed

lemma Max_step:
  fixes a :: real
  assumes "finite A" "A \<noteq> {}" "finite B"
  shows "Max (insert (max a (Max A)) B) = Max (insert a (A \<union> B))"
proof (cases "B = {}")
  case True
  with assms show ?thesis by simp
next
  case False
  with assms have "Max (insert a (A \<union> B)) = max a (max (Max A) (Max B))"
    by (simp add: Max_Un)
  moreover from assms False have "Max (insert (max a (Max A)) B) = max (max a (Max A)) (Max B)"
    by simp
  ultimately show ?thesis by (simp add: max.assoc)
qed

lemma Min_start:
  fixes A :: "real set"
  assumes "finite A" "A \<noteq> {}" "finite B"
  shows "Min (insert (Min A) B) = Min (A \<union> B)"
proof (cases "B = {}")
  case True
  then show ?thesis by simp
next
  case False
  with assms show ?thesis by (simp add: Min_Un)
qed

lemma Max_start:
  fixes A :: "real set"
  assumes "finite A" "A \<noteq> {}" "finite B"
  shows "Max (insert (Max A) B) = Max (A \<union> B)"
proof (cases "B = {}")
  case True
  then show ?thesis by simp
next
  case False
  with assms show ?thesis by (simp add: Max_Un)
qed

lemma all_points_Cons: "all_points (p # ps) = points p @ all_points ps"
  by (simp add: all_points_def)

lemma bounding_box_Some:
  "points p \<noteq> [] \<Longrightarrow>
     bounding_box p = Some ((Min (set (map fst (points p))), Min (set (map snd (points p)))),
                            (Max (set (map fst (points p))), Max (set (map snd (points p)))))"
  by (simp add: bounding_box_def)

lemma bbox_loop_union:
  assumes "\<forall>p\<in>set ps. points p \<noteq> []"
  shows "bbox_loop ps ((a, b), (c, d)) =
           Inr ((Min (insert a (set (map fst (all_points ps)))),
                 Min (insert b (set (map snd (all_points ps))))),
                (Max (insert c (set (map fst (all_points ps)))),
                 Max (insert d (set (map snd (all_points ps))))))"
  using assms
proof (induction ps arbitrary: a b c d)
  case Nil
  then show ?case by (simp add: all_points_def)
next
  case (Cons p ps)
  then have ne: "points p \<noteq> []" and rest: "\<forall>p\<in>set ps. points p \<noteq> []" by simp_all
  let ?X = "set (map fst (points p))" and ?Y = "set (map snd (points p))"
  let ?S = "set (map fst (all_points ps))" and ?T = "set (map snd (all_points ps))"
  have X: "finite ?X" "?X \<noteq> {}" and Y: "finite ?Y" "?Y \<noteq> {}" using ne by simp_all
  have S: "finite ?S" and T: "finite ?T" by simp_all
  have sets: "set (map fst (all_points (p # ps))) = ?X \<union> ?S"
    "set (map snd (all_points (p # ps))) = ?Y \<union> ?T"
    by (simp_all add: all_points_Cons)
  have "bbox_loop (p # ps) ((a, b), (c, d)) =
          bbox_loop ps ((min a (Min ?X), min b (Min ?Y)), (max c (Max ?X), max d (Max ?Y)))"
    by (simp add: bounding_box_Some[OF ne])
  also have "\<dots> = Inr ((Min (insert (min a (Min ?X)) ?S), Min (insert (min b (Min ?Y)) ?T)),
                     (Max (insert (max c (Max ?X)) ?S), Max (insert (max d (Max ?Y)) ?T)))"
    by (rule Cons.IH[OF rest])
  finally show ?case
    unfolding sets Min_step[OF X S] Min_step[OF Y T] Max_step[OF X S] Max_step[OF Y T] .
qed

lemma center_text_union:
  assumes "text \<noteq> []" and "\<forall>p\<in>set text. points p \<noteq> []"
  shows "center_text text =
           Inr (map (translate (- fst (bbox_center (union_bbox text)))
                               (- snd (bbox_center (union_bbox text)))) text)"
proof -
  from assms(1) obtain p ps where tx: "text = p # ps" by (cases "text") auto
  with assms(2) have ne: "points p \<noteq> []" and rest: "\<forall>p\<in>set ps. points p \<noteq> []" by simp_all
  let ?X = "set (map fst (points p))" and ?Y = "set (map snd (points p))"
  let ?S = "set (map fst (all_points ps))" and ?T = "set (map snd (all_points ps))"
  have X: "finite ?X" "?X \<noteq> {}" and Y: "finite ?Y" "?Y \<noteq> {}" using ne by simp_all
  have S: "finite ?S" and T: "finite ?T" by simp_all
  have sets: "set (map fst (all_points text)) = ?X \<union> ?S"
    "set (map snd (all_points text)) = ?Y \<union> ?T"
    by (simp_all add: tx all_points_Cons)
  have loop: "bbox_loop ps ((Min ?X, Min ?Y), (Max ?X, Max ?Y)) = Inr (union_bbox text)"
    unfolding bbox_loop_union[OF rest] union_bbox_def sets
      Min_start[OF X S] Min_start[OF Y T] Max_start[OF X S] Max_start[OF Y T] ..
  obtain x0 y0 x1 y1 where bb: "union_bbox text = ((x0, y0), (x1, y1))"
    by (metis surj_pair)
  have "center_text text =
          Inr (map (translate (- ((x0 + x1) / 2)) (- ((y0 + y1) / 2))) text)"
    using loop by (simp add: center_text_def tx bounding_box_Some[OF ne] bb[unfolded tx] Let_def)
  then show ?thesis by (simp add: bbox_center_def bb)
qed

lemma center_text_empty: "center_text [] = Inr []"
  by (simp add: center_text_def)

lemma all_points_translate:
  "all_points (map (translate dx dy) ps) = map (\<lambda>(px, py). (px + dx, py + dy)) (all_points ps)"
  by (induction ps) (simp_all add: all_points_def translate_def)

lemma union_bbox_translate:
  assumes "all_points ps \<noteq> []"
  shows "union_bbox (map (translate dx dy) ps) =
           ((fst (fst (union_bbox ps)) + dx, snd (fst (union_bbox ps)) + dy),
            (fst (snd (union_bbox ps)) + dx, snd (snd (union_bbox ps)) + dy))"
proof -
  let ?P = "set (all_points ps)"
  have P: "finite ?P" "?P \<noteq> {}" using assms by simp_all
  have fx: "set (map fst (all_points (map (translate dx dy) ps))) = (\<lambda>q. fst q + dx) ` ?P"
    and fy: "set (map snd (all_points (map (translate dx dy) ps))) = (\<lambda>q. snd q + dy) ` ?P"
    by (auto simp: all_points_translate image_iff split: prod.splits) force+
  show ?thesis
    unfolding union_bbox_def fx fy
      Min_add_commute[OF P] Max_add_commute[OF P] by simp
qed

lemma centered:
  assumes "text \<noteq> []" and "\<forall>p\<in>set text. points p \<noteq> []"
  shows "bbox_center (union_bbox (map (translate (- fst (bbox_center (union_bbox text)))
                                                (- snd (bbox_center (union_bbox text)))) text))
         = (0, 0)"
proof -
  from assms have "all_points text \<noteq> []"
    by (cases "text") (auto simp: all_points_def)
  from union_bbox_translate[OF this] show ?thesis
    by (simp add: bbox_center_def field_simps)
qed

text \<open>
  Claim C6. Let \<open>glyphs\<close> be what the text primitive returns for the string. If it is
  not empty (each polygon having at least one vertex, as every polygon of the layout
  library has), \<^verbatim>\<open>humancad\<close> and \<^verbatim>\<open>datecad\<close> return a cell holding every polygon
  translated by the negative of the centre of the union bounding box, and the union
  bounding box of the result is centred at the origin. If it is empty, the block is
  skipped, nothing fails, and the cell holds the empty list.
\<close>

theorem text_cells_centered:
  assumes "glyphs = gdstk_text s (4 * scale) (0, 0) l d"
  shows "(glyphs \<noteq> [] \<and> (\<forall>p\<in>set glyphs. points p \<noteq> []) \<longrightarrow>
            (\<exists>cx cy.
               bbox_center (union_bbox glyphs) = (cx, cy)
               \<and> humancad gdstk_text s l d =
                   Inr \<lparr>cell_name = ''RETICLELABEL'',
                        elements = map (translate (- cx) (- cy)) glyphs\<rparr>
               \<and> datecad gdstk_text s l d =
                   Inr \<lparr>cell_name = ''DATE'',
                        elements = map (translate (- cx) (- cy)) glyphs\<rparr>
               \<and> bbox_center (union_bbox (map (translate (- cx) (- cy)) glyphs)) = (0, 0)))
       \<and> (glyphs = [] \<longrightarrow>
            humancad gdstk_text s l d = Inr \<lparr>cell_name = ''RETICLELABEL'', elements = []\<rparr>
            \<and> datecad gdstk_text s l d = Inr \<lparr>cell_name = ''DATE'', elements = []\<rparr>)"
proof (intro conjI impI)
  assume "glyphs \<noteq> [] \<and> (\<forall>p\<in>set glyphs. points p \<noteq> [])"
  then have ne: "glyphs \<noteq> []" and pts: "\<forall>p\<in>set glyphs. points p \<noteq> []" by simp_all
  let ?cx = "fst (bbox_center (union_bbox glyphs))"
  let ?cy = "snd (bbox_center (union_bbox glyphs))"
  have c: "bbox_center (union_bbox glyphs) = (?cx, ?cy)" by simp
  have ct: "center_text (gdstk_text s (4 * scale) (0, 0) l d) =
              Inr (map (translate (- ?cx) (- ?cy)) glyphs)"
    using center_text_union[OF ne pts] by (simp add: assms)
  have h: "humancad gdstk_text s l d =
             Inr \<lparr>cell_name = ''RETICLELABEL'', elements = map (translate (- ?cx) (- ?cy)) glyphs\<rparr>"
    by (simp add: humancad_def ct)
  have dt: "datecad gdstk_text s l d =
             Inr \<lparr>cell_name = ''DATE'', elements = map (translate (- ?cx) (- ?cy)) glyphs\<rparr>"
    by (simp add: datecad_def ct)
  from c h dt centered[OF ne pts]
  show "\<exists>cx cy.
               bbox_center (union_bbox glyphs) = (cx, cy)
               \<and> humancad gdstk_text s l d =
                   Inr \<lparr>cell_name = ''RETICLELABEL'',
                        elements = map (translate (- cx) (- cy)) glyphs\<rparr>
               \<and> datecad gdstk_text s l d =
                   Inr \<lparr>cell_name = ''DATE'',
                        elements = map (translate (- cx) (- cy)) glyphs\<rparr>
               \<and> bbox_center (union_bbox (map (translate (- cx) (- cy)) glyphs)) = (0, 0)"
    by blast
next
  assume "glyphs = []"
  with assms have e: "gdstk_text s (4 * scale) (0, 0) l d = []" by simp
  show "humancad gdstk_text s l d = Inr \<lparr>cell_name = ''RETICLELABEL'', elements = []\<rparr>"
    by (simp add: humancad_def e center_text_empty)
  show "datecad gdstk_text s l d = Inr \<lparr>cell_name = ''DATE'', elements = []\<rparr>"
    by (simp add: datecad_def e center_text_empty)
qed

lemma two_glyphs_center:
  "bbox_center (union_bbox (two_glyphs ''AB12'' (4 * scale) (0, 0) 4 0)) = (3, 3)"
  by (simp add: two_glyphs_def union_bbox_def all_points_def bbox_center_def)

text \<open>
  A text primitive that draws a box and a triangle: the centre \<open>(3, 3)\<close> moves to the
  origin. For the empty string it draws nothing, and the cell is empty.
\<close>

theorem text_cells_centered_witness:
  "two_glyphs ''AB12'' (4 * scale) (0, 0) 4 0 \<noteq> []
   \<and> list_all (\<lambda>p. points p \<noteq> []) (two_glyphs ''AB12'' (4 * scale) (0, 0) 4 0)
   \<and> humancad two_glyphs ''AB12'' 4 0 =
       Inr \<lparr>cell_name = ''RETICLELABEL'',
            elements =
              [\<lparr>points = [(- 3, - 3), (- 1, - 3), (- 1, 1), (- 3, 1)],
                 poly_layer = 4, poly_datatype = 0\<rparr>,
               \<lparr>points = [(0, - 2), (3, - 2), (3, 3)], poly_layer = 4, poly_datatype = 0\<rparr>]\<rparr>
   \<and> bbox_center (union_bbox
         [\<lparr>points = [(- 3, - 3), (- 1, - 3), (- 1, 1), (- 3, 1)],
            poly_layer = 4, poly_datatype = 0\<rparr>,
          \<lparr>points = [(0, - 2), (3, - 2), (3, 3)], poly_layer = 4, poly_datatype = 0\<rparr>]) = (0, 0)
   \<and> datecad two_glyphs [] 4 0 = Inr \<lparr>cell_name = ''DATE'', elements = []\<rparr>"
proof -
  let ?g = "two_glyphs ''AB12'' (4 * scale) (0, 0) 4 0"
  let ?r = "[\<lparr>points = [(- 3, - 3), (- 1, - 3), (- 1, 1), (- 3, 1)],
               poly_layer = 4, poly_datatype = 0\<rparr>,
             \<lparr>points = [(0, - 2), (3, - 2), (3, 3 :: real)], poly_layer = 4, poly_datatype = 0\<rparr>]"
  have ne: "?g \<noteq> []" by (simp add: two_glyphs_def)
  have pts: "list_all (\<lambda>p. points p \<noteq> []) ?g" by (simp add: two_glyphs_def)
  then have hyp: "?g \<noteq> [] \<and> (\<forall>p\<in>set ?g. points p \<noteq> [])"
    using ne by (simp add: list_all_iff)
  from text_cells_centered[OF refl, of two_glyphs "''AB12''" 4 0, THEN conjunct1, THEN mp, OF hyp]
  obtain cx cy where c: "bbox_center (union_bbox ?g) = (cx, cy)"
    and h: "humancad two_glyphs ''AB12'' 4 0 =
              Inr \<lparr>cell_name = ''RETICLELABEL'', elements = map (translate (- cx) (- cy)) ?g\<rparr>"
    and z: "bbox_center (union_bbox (map (translate (- cx) (- cy)) ?g)) = (0, 0)"
    by blast
  from c two_glyphs_center have cxy: "cx = 3" "cy = 3" by simp_all
  have tr: "map (translate (- 3) (- 3)) ?g = ?r"
    by (simp add: two_glyphs_def translate_def)
  have e: "two_glyphs [] (4 * scale) (0, 0) 4 0 = []" by (simp add: two_glyphs_def)
  from text_cells_centered[OF refl, of two_glyphs "[]" 4 0, THEN conjunct2, THEN mp, OF e]
  have dte: "datecad two_glyphs [] 4 0 = Inr \<lparr>cell_name = ''DATE'', elements = []\<rparr>"
    by simp
  from h z have "humancad two_glyphs ''AB12'' 4 0 = Inr \<lparr>cell_name = ''RETICLELABEL'', elements = ?r\<rparr>"
    and "bbox_center (union_bbox ?r) = (0, 0)"
    unfolding cxy tr by simp_all
  with ne pts dte show ?thesis by blast
qed

end
